(* ===== verification/Prelude.thy ===== *)
theory Prelude
  imports Main "HOL-Library.Word" "HOL-Library.Signed_Division" "HOL-Library.Monad_Syntax"
begin

text \<open>
  Shared vocabulary of the development of \<^verbatim>\<open>src/src/main.cpp\<close>. The sketch keeps all
  of its state in three global \<^verbatim>\<open>int\<close> variables and talks to the world through
  Arduino calls (\<^verbatim>\<open>digitalWrite\<close>, \<^verbatim>\<open>myServo.write\<close>, \<^verbatim>\<open>delay\<close>,
  \<^verbatim>\<open>delayMicroseconds\<close>, \<^verbatim>\<open>Serial.print\<close>). The globals become the record
  \<open>globals\<close>; every externally visible call is appended to the field \<open>io_trace\<close> as
  an \<open>event\<close>, so that an operation of the model is a function from one record to the
  next and the order of the hardware effects is part of its result.

  C's \<^verbatim>\<open>/\<close> and \<^verbatim>\<open>%\<close> on \<^verbatim>\<open>int\<close> truncate towards zero; they are
  \<open>sdiv\<close> and \<open>smod\<close> of HOL-Library.Signed_Division. C \<^verbatim>\<open>int\<close> is 32 bits wide
  on the RP2040 board this sketch drives (pins 16 to 21); the model computes on
  unbounded \<open>int\<close>. This is exact here: the ring values stay in \<open>(-16384, 32767)\<close> and
  the servo angle moves only towards a target in \<open>[0, 180]\<close>.
\<close>

named_theorems motion_consts "values of the configuration constants of main.cpp"
named_theorems motion_inv "preservation of the state invariants by the operations"

subsection \<open>Observable effects\<close>

datatype event =
    PinMode int                 \<comment> \<open>\<^verbatim>\<open>pinMode(pin, OUTPUT)\<close>\<close>
  | PinWrite int int            \<comment> \<open>\<^verbatim>\<open>digitalWrite(pin, level)\<close>\<close>
  | ServoAttach int             \<comment> \<open>\<^verbatim>\<open>myServo.attach(pin)\<close>\<close>
  | ServoWrite int              \<comment> \<open>\<^verbatim>\<open>myServo.write(angle)\<close>\<close>
  | DelayUs int                 \<comment> \<open>\<^verbatim>\<open>delayMicroseconds(us)\<close>\<close>
  | DelayMs int                 \<comment> \<open>\<^verbatim>\<open>delay(ms)\<close>\<close>
  | SerialBegin int             \<comment> \<open>\<^verbatim>\<open>Serial.begin(baud)\<close>\<close>
  | Print string                \<comment> \<open>\<^verbatim>\<open>Serial.print(text)\<close>\<close>
  | Println string              \<comment> \<open>\<^verbatim>\<open>Serial.println(text)\<close>\<close>
  | PrintNum int                \<comment> \<open>\<^verbatim>\<open>Serial.print(number)\<close>\<close>
  | PrintlnNum int              \<comment> \<open>\<^verbatim>\<open>Serial.println(number)\<close>\<close>

fun is_pin_write :: "event \<Rightarrow> bool" where
  "is_pin_write (PinWrite _ _) = True"
| "is_pin_write _ = False"

fun is_delay_us :: "event \<Rightarrow> bool" where
  "is_delay_us (DelayUs _) = True"
| "is_delay_us _ = False"

text \<open>Events of the motion layer: coil writes, servo writes and the delays between them.
  Console output is not among them.\<close>

fun is_motion_event :: "event \<Rightarrow> bool" where
  "is_motion_event (PinWrite _ _) = True"
| "is_motion_event (DelayUs _) = True"
| "is_motion_event (ServoWrite _) = True"
| "is_motion_event (DelayMs _) = True"
| "is_motion_event _ = False"

subsection \<open>The global variables of the sketch\<close>

record globals =
  current_ring_step_position :: int
  current_step_index :: int
  current_servo_angle :: int
  io_trace :: "event list"

type_synonym 'a gstate = "'a globals_scheme"

text \<open>Appending calls that change no global, such as console output.\<close>

definition emit :: "event list \<Rightarrow> 'a gstate \<Rightarrow> 'a gstate" where
  "emit es s = s\<lparr>io_trace := io_trace s @ es\<rparr>"

lemma emit_fields [simp]:
  "current_ring_step_position (emit es s) = current_ring_step_position s"
  "current_step_index (emit es s) = current_step_index s"
  "current_servo_angle (emit es s) = current_servo_angle s"
  "io_trace (emit es s) = io_trace s @ es"
  by (simp_all add: emit_def)

subsection \<open>C integers\<close>

lemma smod_nonneg_eq_mod [simp]:
  "0 \<le> a \<Longrightarrow> 0 \<le> b \<Longrightarrow> (a::int) smod b = a mod b"
  by (rule smod_mod_positive)

lemma sdiv_nonneg_eq_div [simp]:
  "0 \<le> a \<Longrightarrow> 0 \<le> b \<Longrightarrow> (a::int) sdiv b = a div b"
  by (simp add: signed_divide_int_def sgn_if)

lemma word_of_int_mod_len [simp]:
  "(word_of_int (x mod 2 ^ LENGTH('a)) :: 'a::len word) = word_of_int x"
  by (simp add: word_of_int_eq_iff take_bit_eq_mod)

text \<open>C's \<^verbatim>\<open>(x + (m - 1)) % m\<close> is the predecessor modulo \<open>m\<close>.\<close>

lemma mod_add_pred_modulus: "(x + (m - 1)) mod m = (x - 1) mod (m::int)"
  using mod_add_self2 [of "x - 1" m] by (simp add: algebra_simps)

lemma mod_shift_step:
  "((i + d) mod m + d * int k) mod m = (i + d * int (Suc k)) mod (m::int)"
proof -
  have "((i + d) mod m + d * int k) mod m = (i + d + d * int k) mod m"
    by (rule mod_add_left_eq)
  then show ?thesis by (simp add: algebra_simps)
qed

subsection \<open>Iteration\<close>

lemma funpow_Suc_inner: "(f ^^ Suc n) x = (f ^^ n) (f x)"
  by (simp only: funpow_Suc_right comp_def)

end
