(* ===== verification/Coil.thy ===== *)
theory Coil
  imports Prelude
begin

text \<open>
  The coil sequencer of \<^verbatim>\<open>main.cpp\<close>: the four motor pins, the half-step table
  \<^verbatim>\<open>lookup[8][4]\<close> (lines 34--37) and the part of the loop body of
  \<^verbatim>\<open>rotate_ring\<close> that drives the coils (lines 42--47): write the row of the current
  phase \<^verbatim>\<open>current_step_index\<close> to the pins, then advance the phase by \<^verbatim>\<open>+1\<close>
  (anti-clockwise) or \<^verbatim>\<open>+7\<close> (clockwise) modulo 8. The lemmas show that the table is a
  proper half-step sequence, that the phase stays in \<open>[0, 8)\<close>, that \<^verbatim>\<open>+7\<close> is
  \<^verbatim>\<open>-1\<close> modulo 8 (the phase refines a 3-bit counter), and which rows a run of steps
  energises, in which order.
\<close>

subsection \<open>Definitions\<close>

definition motorPin1 :: int where "motorPin1 = 18"
definition motorPin2 :: int where "motorPin2 = 19"
definition motorPin3 :: int where "motorPin3 = 20"
definition motorPin4 :: int where "motorPin4 = 21"

definition lookup :: "int list list" where
  "lookup = [[1, 0, 0, 0], [1, 1, 0, 0], [0, 1, 0, 0], [0, 1, 1, 0],
             [0, 0, 1, 0], [0, 0, 1, 1], [0, 0, 0, 1], [1, 0, 0, 1]]"

text \<open>The four \<^verbatim>\<open>digitalWrite\<close> calls of one step, for phase \<open>i\<close>.\<close>

definition coil_outputs :: "int \<Rightarrow> event list" where
  "coil_outputs i =
     (let row = lookup ! nat i
      in [PinWrite motorPin1 (row ! 0), PinWrite motorPin2 (row ! 1),
          PinWrite motorPin3 (row ! 2), PinWrite motorPin4 (row ! 3)])"

definition next_step_index :: "bool \<Rightarrow> int \<Rightarrow> int" where
  "next_step_index anti_clockwise i = (i + (if anti_clockwise then 1 else 7)) smod 8"

definition coil_step :: "bool \<Rightarrow> 'a gstate \<Rightarrow> 'a gstate" where
  "coil_step anti_clockwise s =
     s\<lparr>io_trace := io_trace s @ coil_outputs (current_step_index s),
       current_step_index := next_step_index anti_clockwise (current_step_index s)\<rparr>"

subsection \<open>Specification\<close>

definition phase_ok :: "int \<Rightarrow> bool" where
  "phase_ok i \<longleftrightarrow> 0 \<le> i \<and> i < 8"

definition dir_sign :: "bool \<Rightarrow> int" where
  "dir_sign anti_clockwise = (if anti_clockwise then 1 else - 1)"

text \<open>Number of coils whose level differs between two rows.\<close>

fun coils_changed :: "int list \<Rightarrow> int list \<Rightarrow> nat" where
  "coils_changed (a # as) (b # bs) = (if a = b then 0 else 1) + coils_changed as bs"
| "coils_changed _ _ = 0"

definition energized :: "int list \<Rightarrow> nat" where
  "energized row = length (filter (\<lambda>v. v = 1) row)"

text \<open>
  The energisation schedule the design asks for: starting at phase \<open>i\<close>, \<open>k\<close> steps in
  direction \<open>d\<close> (\<open>1\<close> or \<open>-1\<close>) write rows \<open>i, i + d, i + 2d, \<dots>\<close> modulo 8.
\<close>

fun coil_schedule :: "int \<Rightarrow> int \<Rightarrow> nat \<Rightarrow> event list" where
  "coil_schedule i d 0 = []"
| "coil_schedule i d (Suc k) = coil_outputs i @ coil_schedule ((i + d) mod 8) d k"

subsection \<open>The phase\<close>

lemma next_step_index_mod [simp]:
  "0 \<le> i \<Longrightarrow> next_step_index ac i = (i + dir_sign ac) mod 8"
  using mod_add_pred_modulus [of i 8] by (simp add: next_step_index_def dir_sign_def)
lemma phase_ok_mod [simp]: "phase_ok (x mod 8)"
  by (simp add: phase_ok_def)

lemma next_step_index_ok [motion_inv]:
  "phase_ok i \<Longrightarrow> phase_ok (next_step_index ac i)"
  by (simp add: phase_ok_def)

lemma coil_step_fields [simp]:
  "current_ring_step_position (coil_step ac s) = current_ring_step_position s"
  "current_servo_angle (coil_step ac s) = current_servo_angle s"
  "current_step_index (coil_step ac s) = next_step_index ac (current_step_index s)"
  "io_trace (coil_step ac s) = io_trace s @ coil_outputs (current_step_index s)"
  by (simp_all add: coil_step_def)

lemma coil_outputs_pins: "filter is_pin_write (coil_outputs i) = coil_outputs i"
  by (simp add: coil_outputs_def Let_def)

subsection \<open>Runs of steps\<close>

lemma coil_step_iterate:
  assumes "phase_ok (current_step_index s)"
  shows "current_step_index ((coil_step ac ^^ k) s)
           = (current_step_index s + dir_sign ac * int k) mod 8
         \<and> io_trace ((coil_step ac ^^ k) s)
           = io_trace s @ coil_schedule (current_step_index s) (dir_sign ac) k"
  using assms
proof (induction k arbitrary: s)
  case 0
  then show ?case by (simp add: phase_ok_def)
next
  case (Suc k)
  let ?i = "current_step_index s"
  from Suc.prems have i: "0 \<le> ?i" by (simp add: phase_ok_def)
  have "phase_ok (current_step_index (coil_step ac s))"
    using i by simp
  from Suc.IH [OF this] i mod_shift_step [of ?i "dir_sign ac" 8 k] show ?case
    by (simp only: funpow_Suc_inner coil_step_fields next_step_index_mod) simp
qed
subsection \<open>One physical step\<close>

lemma phase_cases:
  "phase_ok i \<Longrightarrow> i = 0 \<or> i = 1 \<or> i = 2 \<or> i = 3 \<or> i = 4 \<or> i = 5 \<or> i = 6 \<or> i = 7"
  by (auto simp: phase_ok_def)

text \<open>C10. Half stepping: from any phase in \<open>[0, 8)\<close>, one \<^verbatim>\<open>rotate_ring\<close>
  coil update, in either direction, moves to a row of \<^verbatim>\<open>lookup\<close> that differs from
  the row just written in exactly one coil and energises one or two coils, so the motor
  is never driven with a two-coil jump (the cyclic wrap from row 7 to row 0 included).\<close>

theorem coil_step_changes_one_coil:
  assumes "phase_ok (current_step_index s)"
  shows "coils_changed (lookup ! nat (current_step_index s))
                       (lookup ! nat (current_step_index (coil_step ac s))) = 1
         \<and> energized (lookup ! nat (current_step_index (coil_step ac s))) \<in> {1, 2}"
  using phase_cases [OF assms]
  by (cases ac) (auto simp: next_step_index_def lookup_def energized_def)

theorem coil_step_changes_one_coil_witness:
  "phase_ok (current_step_index (globals.make 0 7 90 []))
   \<and> coils_changed [1, 0, 0, 1] [1, 0, 0, 0] = 1
   \<and> lookup ! nat (current_step_index (coil_step True (globals.make 0 7 90 []))) = [1, 0, 0, 0]"
proof -
  have h: "phase_ok (current_step_index (globals.make 0 7 90 []))"
    by (simp add: phase_ok_def globals.make_def)
  from coil_step_changes_one_coil [OF h, of True] h show ?thesis
    by (simp add: globals.make_def next_step_index_def lookup_def)
qed

end
