(* ===== verification/Ring.thy ===== *)
theory Ring
  imports Coil
begin

text \<open>
  The ring position tracker of \<^verbatim>\<open>main.cpp\<close>: the ring constants (lines 5--16), the
  stepping loop \<^verbatim>\<open>rotate_ring\<close> (lines 39--52) and \<^verbatim>\<open>rotate_ring_to_nail\<close>
  (lines 78--86), which computes the shortest signed step count to a nail.
\<close>

subsection \<open>Definitions\<close>

definition num_nails :: int where "num_nails = 32"
definition stepper_steps_per_ring_rotation :: int where
  "stepper_steps_per_ring_rotation = 4096 * 4"
definition steps_per_nail :: int where
  "steps_per_nail = stepper_steps_per_ring_rotation sdiv num_nails"
definition target_stepper_rpm :: int where "target_stepper_rpm = 10"
definition step_delay_microseconds :: int where
  "step_delay_microseconds = (60 sdiv target_stepper_rpm) * 1000 * 1000 sdiv 4096"

text \<open>One iteration of the \<^verbatim>\<open>for\<close> loop of \<^verbatim>\<open>rotate_ring\<close>.\<close>

definition ring_step :: "bool \<Rightarrow> 'a gstate \<Rightarrow> 'a gstate" where
  "ring_step anti_clockwise s =
     (let s1 = coil_step anti_clockwise s;
          s2 = s1\<lparr>current_ring_step_position :=
                 (current_ring_step_position s1
                  + (if anti_clockwise then 1 else stepper_steps_per_ring_rotation - 1))
                 smod stepper_steps_per_ring_rotation\<rparr>
      in s2\<lparr>io_trace := io_trace s2 @ [DelayUs step_delay_microseconds]\<rparr>)"

text \<open>The loop \<^verbatim>\<open>for (int i = 0; i < steps; i++)\<close>, with its counter.\<close>

function rotate_ring_loop :: "int \<Rightarrow> int \<Rightarrow> bool \<Rightarrow> 'a gstate \<Rightarrow> 'a gstate" where
  "rotate_ring_loop i steps anti_clockwise s =
     (if i < steps
      then rotate_ring_loop (i + 1) steps anti_clockwise (ring_step anti_clockwise s)
      else s)"
  by pat_completeness auto
termination
  by (relation "measure (\<lambda>(i, steps, _, _). nat (steps - i))") auto

declare rotate_ring_loop.simps [simp del]

definition rotate_ring :: "int \<Rightarrow> bool \<Rightarrow> 'a gstate \<Rightarrow> 'a gstate" where
  "rotate_ring steps anti_clockwise s = rotate_ring_loop 0 steps anti_clockwise s"

text \<open>Lines 79--83: the signed step count from \<open>position\<close> to nail \<open>nail_idx\<close>.\<close>

definition ring_delta :: "int \<Rightarrow> int \<Rightarrow> int" where
  "ring_delta nail_idx position =
     (let target_pos = nail_idx * steps_per_nail;
          diff = target_pos - position;
          diff = (if diff > stepper_steps_per_ring_rotation sdiv 2
                  then diff - stepper_steps_per_ring_rotation else diff);
          diff = (if diff < (- stepper_steps_per_ring_rotation) sdiv 2
                  then diff + stepper_steps_per_ring_rotation else diff)
      in diff)"

definition rotate_ring_to_nail :: "int \<Rightarrow> 'a gstate \<Rightarrow> 'a gstate" where
  "rotate_ring_to_nail nail_idx s =
     (let diff = ring_delta nail_idx (current_ring_step_position s)
      in rotate_ring \<bar>diff\<bar> (diff > 0) s)"

subsection \<open>Specification\<close>

text \<open>
  The ring invariant: the position is a step count in \<open>[0, 16384)\<close> and the coil phase
  is the position modulo 8 (phase and position never drift apart).
\<close>

definition ring_inv :: "'a gstate \<Rightarrow> bool" where
  "ring_inv s \<longleftrightarrow>
     0 \<le> current_ring_step_position s
     \<and> current_ring_step_position s < stepper_steps_per_ring_rotation
     \<and> current_step_index s = current_ring_step_position s mod 8"

definition nail_ok :: "int \<Rightarrow> bool" where
  "nail_ok n \<longleftrightarrow> 0 \<le> n \<and> n < num_nails"

text \<open>Physical steps in a trace: each iteration of the loop ends with one
  \<^verbatim>\<open>delayMicroseconds\<close>, and nothing else of the sketch calls it.\<close>

definition steps_issued :: "event list \<Rightarrow> nat" where
  "steps_issued tr = length (filter is_delay_us tr)"

text \<open>The abstract ring: a 14-bit position counter and a 3-bit phase counter
  (\<open>16384 = 2 ^ 14\<close>, \<open>8 = 2 ^ 3\<close>).\<close>

definition ring_abs :: "'a gstate \<Rightarrow> 14 word \<times> 3 word" where
  "ring_abs s = (word_of_int (current_ring_step_position s), word_of_int (current_step_index s))"

subsection \<open>Constants and one step\<close>

lemma ring_consts [simp, motion_consts]:
  "num_nails = 32" "stepper_steps_per_ring_rotation = 16384" "steps_per_nail = 512"
  "step_delay_microseconds = 1464"
  by (simp_all add: num_nails_def stepper_steps_per_ring_rotation_def steps_per_nail_def
      step_delay_microseconds_def target_stepper_rpm_def)

lemma ring_step_fields [simp]:
  "current_servo_angle (ring_step ac s) = current_servo_angle s"
  "current_step_index (ring_step ac s) = next_step_index ac (current_step_index s)"
  "io_trace (ring_step ac s) = io_trace s @ coil_outputs (current_step_index s) @ [DelayUs 1464]"
  "0 \<le> current_ring_step_position s \<Longrightarrow>
   current_ring_step_position (ring_step ac s) = (current_ring_step_position s + dir_sign ac) mod 16384"
  using mod_add_pred_modulus [of "current_ring_step_position s" 16384]
  by (simp_all add: ring_step_def Let_def dir_sign_def)

lemma ring_inv_phase: "ring_inv s \<Longrightarrow> phase_ok (current_step_index s)"
  by (simp add: ring_inv_def)

lemma ring_step_inv [motion_inv]: "ring_inv s \<Longrightarrow> ring_inv (ring_step ac s)"
proof -
  assume inv: "ring_inv s"
  let ?p = "current_ring_step_position s"
  have "(?p + dir_sign ac) mod 16384 mod 8 = (?p mod 8 + dir_sign ac) mod 8"
    by (simp add: mod_mod_cancel mod_add_left_eq)
  with inv show ?thesis
    by (simp add: ring_inv_def)
qed

lemma coil_outputs_no_delay [simp]: "filter is_delay_us (coil_outputs i) = []"
  by (simp add: coil_outputs_def Let_def)

lemma coil_schedule_no_delay [simp]: "filter is_delay_us (coil_schedule i d k) = []"
  by (induction k arbitrary: i) auto

subsection \<open>Runs of steps\<close>

lemma ring_iterate_inv [motion_inv]: "ring_inv s \<Longrightarrow> ring_inv ((ring_step ac ^^ k) s)"
  by (induction k) (simp_all add: ring_step_inv)

lemma ring_iterate_position:
  "ring_inv s \<Longrightarrow> current_ring_step_position ((ring_step ac ^^ k) s)
     = (current_ring_step_position s + dir_sign ac * int k) mod 16384"
proof (induction k arbitrary: s)
  case 0
  then show ?case by (simp add: ring_inv_def)
next
  case (Suc k)
  have "ring_inv (ring_step ac s)" using Suc.prems by (rule ring_step_inv)
  from Suc.IH [OF this] Suc.prems
    mod_shift_step [of "current_ring_step_position s" "dir_sign ac" 16384 k]
  show ?case by (simp only: funpow_Suc_inner) (simp add: ring_inv_def)
qed

lemma ring_iterate_frame:
  "current_servo_angle ((ring_step ac ^^ k) s) = current_servo_angle s"
  "steps_issued (io_trace ((ring_step ac ^^ k) s)) = steps_issued (io_trace s) + k"
  by (induction k) (simp_all add: steps_issued_def)

lemma ring_iterate_pins:
  "ring_inv s \<Longrightarrow> filter is_pin_write (io_trace ((ring_step ac ^^ k) s))
     = filter is_pin_write (io_trace s) @ coil_schedule (current_step_index s) (dir_sign ac) k"
proof (induction k arbitrary: s)
  case 0
  then show ?case by simp
next
  case (Suc k)
  have inv': "ring_inv (ring_step ac s)" using Suc.prems by (rule ring_step_inv)
  have i: "0 \<le> current_step_index s" using Suc.prems by (simp add: ring_inv_def)
  from Suc.IH [OF inv'] i show ?case
    by (simp only: funpow_Suc_inner) (simp add: coil_outputs_pins)
qed

lemma rotate_ring_loop_funpow:
  "rotate_ring_loop i steps ac s = (ring_step ac ^^ nat (steps - i)) s"
proof (induction i steps ac s rule: rotate_ring_loop.induct)
  case (1 i steps ac s)
  show ?case
  proof (cases "i < steps")
    case True
    then have n: "nat (steps - i) = Suc (nat (steps - (i + 1)))" by simp
    have "rotate_ring_loop i steps ac s = rotate_ring_loop (i + 1) steps ac (ring_step ac s)"
      using True by (simp add: rotate_ring_loop.simps [of i steps])
    also have "\<dots> = (ring_step ac ^^ nat (steps - (i + 1))) (ring_step ac s)"
      using True by (rule "1.IH")
    also have "\<dots> = (ring_step ac ^^ nat (steps - i)) s"
      by (simp only: n funpow_Suc_inner)
    finally show ?thesis .
  next
    case False
    then show ?thesis by (simp add: rotate_ring_loop.simps [of i steps])
  qed
qed

lemma rotate_ring_funpow: "rotate_ring k ac s = (ring_step ac ^^ nat k) s"
  by (simp add: rotate_ring_def rotate_ring_loop_funpow)

subsection \<open>The shortest signed delta\<close>

lemma ring_delta_cases:
  "ring_delta n p = (let d = n * 512 - p in
     if d > 8192 then d - 16384 else if d < - 8192 then d + 16384 else d)"
  by (simp add: ring_delta_def Let_def)

lemma ring_delta_target:
  assumes "0 \<le> p" "p < 16384" "nail_ok n"
  shows "(p + ring_delta n p) mod 16384 = n * 512"
proof -
  from assms have t: "0 \<le> n * 512" "n * 512 < 16384" by (simp_all add: nail_ok_def)
  have "p + ring_delta n p = n * 512 \<or> p + ring_delta n p = n * 512 - 16384
        \<or> p + ring_delta n p = n * 512 + 16384"
    by (simp add: ring_delta_cases Let_def)
  with t show ?thesis by auto
qed

lemma ring_delta_shortest:
  assumes "0 \<le> p" "p < 16384" "nail_ok n"
  shows "\<bar>ring_delta n p\<bar> = min \<bar>n * 512 - p\<bar> (16384 - \<bar>n * 512 - p\<bar>)"
  using assms by (auto simp: ring_delta_cases Let_def nail_ok_def)

lemma ring_delta_half:
  assumes "0 \<le> p" "p < 16384" "nail_ok n"
  shows "\<bar>ring_delta n p\<bar> \<le> 8192"
  using assms by (auto simp: ring_delta_cases Let_def nail_ok_def)

lemma dir_sign_delta: "dir_sign (0 < d) * \<bar>d\<bar> = d"
  by (simp add: dir_sign_def)

lemma rotate_ring_to_nail_funpow:
  "rotate_ring_to_nail n s
     = (ring_step (0 < ring_delta n (current_ring_step_position s))
         ^^ nat \<bar>ring_delta n (current_ring_step_position s)\<bar>) s"
  by (simp add: rotate_ring_to_nail_def rotate_ring_funpow Let_def)

lemma ring_iterate_motion:
  "\<exists>tr. io_trace ((ring_step ac ^^ k) s) = io_trace s @ tr \<and> list_all is_motion_event tr"
proof (induction k arbitrary: s)
  case 0
  then show ?case by simp
next
  case (Suc k)
  from Suc.IH [of "ring_step ac s"] obtain tr where
    "io_trace ((ring_step ac ^^ k) (ring_step ac s)) = io_trace (ring_step ac s) @ tr"
    "list_all is_motion_event tr" by blast
  then show ?case
    by (simp only: funpow_Suc_inner) (simp add: coil_outputs_def Let_def)
qed

lemma rotate_ring_to_nail_motion:
  "\<exists>tr. io_trace (rotate_ring_to_nail n s) = io_trace s @ tr \<and> list_all is_motion_event tr"
  by (simp add: rotate_ring_to_nail_funpow ring_iterate_motion)

lemma rotate_ring_to_nail_inv [motion_inv]: "ring_inv s \<Longrightarrow> ring_inv (rotate_ring_to_nail n s)"
  by (simp add: rotate_ring_to_nail_funpow ring_iterate_inv)

lemma rotate_ring_to_nail_angle [simp]:
  "current_servo_angle (rotate_ring_to_nail n s) = current_servo_angle s"
  by (simp add: rotate_ring_to_nail_funpow ring_iterate_frame)

lemma rotate_ring_to_nail_pos:
  assumes "ring_inv s" "nail_ok n"
  shows "current_ring_step_position (rotate_ring_to_nail n s) = n * 512"
proof -
  let ?p = "current_ring_step_position s"
  from assms(1) have p: "0 \<le> ?p" "?p < 16384" by (simp_all add: ring_inv_def)
  have "current_ring_step_position (rotate_ring_to_nail n s) = (?p + ring_delta n ?p) mod 16384"
    using assms(1) by (simp add: rotate_ring_to_nail_funpow ring_iterate_position dir_sign_delta)
  with ring_delta_target [OF p assms(2)] show ?thesis by simp
qed

lemma rotate_ring_to_nail_steps:
  "steps_issued (io_trace (rotate_ring_to_nail n s))
     = steps_issued (io_trace s) + nat \<bar>ring_delta n (current_ring_step_position s)\<bar>"
  by (simp add: rotate_ring_to_nail_funpow ring_iterate_frame)

lemma nail_mod_8 [simp]: "n * 512 mod 8 = (0::int)"
  by simp

subsection \<open>Properties of the ring tracker\<close>

text \<open>C1. From any valid state, \<^verbatim>\<open>rotate_ring_to_nail(n)\<close> for a nail \<open>n\<close> in
  \<open>[0, 32)\<close> leaves the ring at step \<open>n * steps_per_nail\<close>, the coil phase at 0, and the
  servo where it was.\<close>

theorem rotate_ring_to_nail_reaches_nail:
  assumes "ring_inv s" "nail_ok n"
  shows "current_ring_step_position (rotate_ring_to_nail n s) = n * steps_per_nail
         \<and> current_step_index (rotate_ring_to_nail n s) = 0
         \<and> current_servo_angle (rotate_ring_to_nail n s) = current_servo_angle s"
proof -
  have "ring_inv (rotate_ring_to_nail n s)" using assms(1) by (rule rotate_ring_to_nail_inv)
  with rotate_ring_to_nail_pos [OF assms] show ?thesis by (simp add: ring_inv_def)
qed

theorem rotate_ring_to_nail_reaches_nail_witness:
  "ring_inv (globals.make 100 4 90 []) \<and> nail_ok 31
   \<and> current_ring_step_position (rotate_ring_to_nail 31 (globals.make 100 4 90 [])) = 31 * steps_per_nail
   \<and> current_step_index (rotate_ring_to_nail 31 (globals.make 100 4 90 [])) = 0
   \<and> current_servo_angle (rotate_ring_to_nail 31 (globals.make 100 4 90 [])) = 90"
proof -
  have h: "ring_inv (globals.make 100 4 90 [])" "nail_ok 31"
    by (simp_all add: ring_inv_def nail_ok_def globals.make_def)
  from rotate_ring_to_nail_reaches_nail [OF h] h show ?thesis
    by (simp add: globals.make_def)
qed

text \<open>C2. Shortest path: the number of physical steps \<^verbatim>\<open>rotate_ring_to_nail\<close> issues is
  \<open>min(|raw|, 16384 - |raw|)\<close> for the raw delta \<open>target - position\<close>, and never more
  than half a revolution.\<close>

theorem rotate_ring_to_nail_shortest:
  assumes "ring_inv s" "nail_ok n"
  shows "steps_issued (io_trace (rotate_ring_to_nail n s))
           = steps_issued (io_trace s)
             + nat (min \<bar>n * steps_per_nail - current_ring_step_position s\<bar>
                        (stepper_steps_per_ring_rotation
                         - \<bar>n * steps_per_nail - current_ring_step_position s\<bar>))
         \<and> nat \<bar>ring_delta n (current_ring_step_position s)\<bar>
             \<le> nat (stepper_steps_per_ring_rotation div 2)"
proof -
  let ?p = "current_ring_step_position s"
  from assms(1) have p: "0 \<le> ?p" "?p < 16384" by (simp_all add: ring_inv_def)
  from ring_delta_shortest [OF p assms(2)] ring_delta_half [OF p assms(2)] show ?thesis
    by (simp add: rotate_ring_to_nail_steps nat_le_iff)
qed

theorem rotate_ring_to_nail_shortest_witness:
  "ring_inv (globals.make 15000 0 90 []) \<and> nail_ok 2
   \<and> steps_issued (io_trace (rotate_ring_to_nail 2 (globals.make 15000 0 90 []))) = 2408
   \<and> nat \<bar>ring_delta 2 15000\<bar> \<le> nat (stepper_steps_per_ring_rotation div 2)"
proof -
  have h: "ring_inv (globals.make 15000 0 90 [])" "nail_ok 2"
    by (simp_all add: ring_inv_def nail_ok_def globals.make_def)
  from rotate_ring_to_nail_shortest [OF h] h show ?thesis
    by (simp add: globals.make_def steps_issued_def)
qed

text \<open>C3. Idempotence: a second \<^verbatim>\<open>rotate_ring_to_nail(n)\<close> right after the first
  issues no step and changes nothing, not even the trace.\<close>

theorem rotate_ring_to_nail_idempotent:
  assumes "ring_inv s" "nail_ok n"
  shows "rotate_ring_to_nail n (rotate_ring_to_nail n s) = rotate_ring_to_nail n s"
proof -
  have "ring_delta n (current_ring_step_position (rotate_ring_to_nail n s)) = 0"
    using rotate_ring_to_nail_pos [OF assms] by (simp add: ring_delta_cases)
  then show ?thesis
    by (simp add: rotate_ring_to_nail_funpow [of n "rotate_ring_to_nail n s"])
qed

theorem rotate_ring_to_nail_idempotent_witness:
  "ring_inv (globals.make 3 3 90 []) \<and> nail_ok 5
   \<and> rotate_ring_to_nail 5 (rotate_ring_to_nail 5 (globals.make 3 3 90 []))
       = rotate_ring_to_nail 5 (globals.make 3 3 90 [])"
proof -
  have h: "ring_inv (globals.make 3 3 90 [])" "nail_ok 5"
    by (simp_all add: ring_inv_def nail_ok_def globals.make_def)
  from rotate_ring_to_nail_idempotent [OF h] h show ?thesis by simp
qed

text \<open>C4. Scenario of the design: from step 0, going to nail 31 turns the ring 512
  steps backward (clockwise) instead of 15872 forward, and lands on step 15872.\<close>

theorem rotate_ring_to_nail_31_from_0:
  assumes "ring_inv s" "current_ring_step_position s = 0"
  shows "rotate_ring_to_nail 31 s = rotate_ring 512 False s
         \<and> current_ring_step_position (rotate_ring_to_nail 31 s) = 15872
         \<and> steps_issued (io_trace (rotate_ring_to_nail 31 s)) = steps_issued (io_trace s) + 512"
proof -
  have d: "ring_delta 31 0 = -512" by (simp add: ring_delta_cases)
  have "rotate_ring_to_nail 31 s = rotate_ring 512 False s"
    using assms(2) d by (simp add: rotate_ring_to_nail_def)
  moreover have "current_ring_step_position (rotate_ring_to_nail 31 s) = 15872"
    using rotate_ring_to_nail_pos [OF assms(1), of 31] by (simp add: nail_ok_def)
  moreover have "steps_issued (io_trace (rotate_ring_to_nail 31 s)) = steps_issued (io_trace s) + 512"
    using assms(2) d by (simp add: rotate_ring_to_nail_steps)
  ultimately show ?thesis by blast
qed

theorem rotate_ring_to_nail_31_from_0_witness:
  "ring_inv (globals.make 0 0 90 []) \<and> current_ring_step_position (globals.make 0 0 90 []) = 0
   \<and> rotate_ring_to_nail 31 (globals.make 0 0 90 []) = rotate_ring 512 False (globals.make 0 0 90 [])
   \<and> current_ring_step_position (rotate_ring_to_nail 31 (globals.make 0 0 90 [])) = 15872
   \<and> steps_issued (io_trace (rotate_ring_to_nail 31 (globals.make 0 0 90 [])))
       = steps_issued (io_trace (globals.make 0 0 90 [])) + 512"
proof -
  have h: "ring_inv (globals.make 0 0 90 [])" "current_ring_step_position (globals.make 0 0 90 []) = 0"
    by (simp_all add: ring_inv_def globals.make_def)
  from rotate_ring_to_nail_31_from_0 [OF h] h show ?thesis by blast
qed

text \<open>C5. The half-revolution tie. When the raw delta \<open>target - position\<close> is exactly
  half a revolution in either direction, neither guard of lines 82--83 fires (both compare
  strictly), so the ring turns 8192 steps in the direction of the raw delta's sign:
  forward for \<open>+8192\<close>, backward for \<open>-8192\<close>. The tie is not broken towards one
  fixed direction.\<close>

theorem rotate_ring_to_nail_half_turn_tie:
  assumes "ring_inv s" "nail_ok n"
    and "\<bar>n * steps_per_nail - current_ring_step_position s\<bar> = stepper_steps_per_ring_rotation div 2"
  shows "rotate_ring_to_nail n s
           = rotate_ring (stepper_steps_per_ring_rotation div 2)
               (0 < n * steps_per_nail - current_ring_step_position s) s"
proof -
  let ?raw = "n * 512 - current_ring_step_position s"
  from assms(3) have raw: "\<bar>?raw\<bar> = 8192" by simp
  then have "\<not> 8192 < ?raw" "\<not> ?raw < - 8192" by auto
  then have "ring_delta n (current_ring_step_position s) = ?raw"
    by (simp add: ring_delta_cases Let_def)
  with raw show ?thesis by (simp add: rotate_ring_to_nail_def)
qed

theorem rotate_ring_to_nail_half_turn_tie_witness:
  "ring_inv (globals.make 0 0 90 []) \<and> nail_ok 16
   \<and> \<bar>16 * steps_per_nail - current_ring_step_position (globals.make 0 0 90 [])\<bar>
       = stepper_steps_per_ring_rotation div 2
   \<and> rotate_ring_to_nail 16 (globals.make 0 0 90 []) = rotate_ring 8192 True (globals.make 0 0 90 [])
   \<and> ring_inv (globals.make 8192 0 90 []) \<and> nail_ok 0
   \<and> \<bar>0 * steps_per_nail - current_ring_step_position (globals.make 8192 0 90 [])\<bar>
       = stepper_steps_per_ring_rotation div 2
   \<and> rotate_ring_to_nail 0 (globals.make 8192 0 90 []) = rotate_ring 8192 False (globals.make 8192 0 90 [])"
proof -
  have h1: "ring_inv (globals.make 0 0 90 [])" "nail_ok 16"
    "\<bar>16 * steps_per_nail - current_ring_step_position (globals.make 0 0 90 [])\<bar>
       = stepper_steps_per_ring_rotation div 2"
    by (simp_all add: ring_inv_def nail_ok_def globals.make_def)
  have h2: "ring_inv (globals.make 8192 0 90 [])" "nail_ok 0"
    "\<bar>0 * steps_per_nail - current_ring_step_position (globals.make 8192 0 90 [])\<bar>
       = stepper_steps_per_ring_rotation div 2"
    by (simp_all add: ring_inv_def nail_ok_def globals.make_def)
  from rotate_ring_to_nail_half_turn_tie [OF h1] rotate_ring_to_nail_half_turn_tie [OF h2] h1 h2
  show ?thesis by (simp add: globals.make_def)
qed

text \<open>C6. The counted \<^verbatim>\<open>for\<close> loop of \<^verbatim>\<open>rotate_ring(steps, dir)\<close> performs
  exactly \<open>max(steps, 0)\<close> iterations of its body.\<close>

theorem rotate_ring_iterates: "rotate_ring steps ac s = (ring_step ac ^^ nat steps) s"
  unfolding rotate_ring_def by (simp add: rotate_ring_loop_funpow)

text \<open>C7. Coil order: \<open>k\<close> steps in one direction write the half-step table rows
  \<open>i, i + 1, i + 2, \<dots>\<close> (anti-clockwise) or \<open>i, i - 1, \<dots>\<close> (clockwise) modulo 8 to
  the pins, starting at the current phase \<open>i\<close>, and nothing else.\<close>

theorem rotate_ring_coil_order:
  assumes "ring_inv s"
  shows "filter is_pin_write (io_trace (rotate_ring k ac s))
           = filter is_pin_write (io_trace s)
             @ coil_schedule (current_step_index s) (dir_sign ac) (nat k)"
  using assms by (simp add: rotate_ring_def rotate_ring_loop_funpow ring_iterate_pins)

theorem rotate_ring_coil_order_witness:
  "ring_inv (globals.make 1 1 90 [])
   \<and> filter is_pin_write (io_trace (rotate_ring 2 False (globals.make 1 1 90 [])))
       = [PinWrite 18 1, PinWrite 19 1, PinWrite 20 0, PinWrite 21 0,
          PinWrite 18 1, PinWrite 19 0, PinWrite 20 0, PinWrite 21 0]"
proof -
  have h: "ring_inv (globals.make 1 1 90 [])" by (simp add: ring_inv_def globals.make_def)
  from rotate_ring_coil_order [OF h, of 2 False] h show ?thesis
    by (simp add: globals.make_def coil_outputs_def lookup_def dir_sign_def
        motorPin1_def motorPin2_def motorPin3_def motorPin4_def numeral_eq_Suc)
qed

text \<open>C8. Phase/position coupling: any rotation, of any length in either direction,
  keeps the position in \<open>[0, 16384)\<close> and the coil phase equal to the position modulo 8.\<close>

theorem rotate_ring_keeps_coupling:
  assumes "ring_inv s"
  shows "ring_inv (rotate_ring k ac s)"
  using assms by (simp add: rotate_ring_def rotate_ring_loop_funpow ring_iterate_inv)

theorem rotate_ring_keeps_coupling_witness:
  "ring_inv (globals.make 0 0 90 []) \<and> ring_inv (rotate_ring 3 False (globals.make 0 0 90 []))"
proof -
  have h: "ring_inv (globals.make 0 0 90 [])" by (simp add: ring_inv_def globals.make_def)
  from rotate_ring_keeps_coupling [OF h, of 3 False] h show ?thesis by simp
qed

lemma ring_abs_coupled:
  "ring_inv s \<Longrightarrow> ucast (fst (ring_abs s)) = snd (ring_abs s)"
proof -
  assume "ring_inv s"
  then have "current_step_index s = current_ring_step_position s mod 8"
    by (simp add: ring_inv_def)
  then show ?thesis
    using word_of_int_mod_len [where 'a=3, of "current_ring_step_position s"]
    by (simp add: ring_abs_def ucast_down_wi is_down)
qed

text \<open>C9. Refinement: on valid states, one iteration of \<^verbatim>\<open>rotate_ring\<close> is the
  increment (anti-clockwise) or decrement (clockwise) of a 14-bit position counter and of
  a 3-bit phase counter, and the phase counter is the low 3 bits of the position counter,
  before and after the step.\<close>

theorem ring_step_refines_counters:
  assumes "ring_inv s"
  shows "ring_abs (ring_step ac s)
           = (fst (ring_abs s) + of_int (dir_sign ac), snd (ring_abs s) + of_int (dir_sign ac))
         \<and> ucast (fst (ring_abs (ring_step ac s))) = snd (ring_abs (ring_step ac s))"
proof -
  let ?p = "current_ring_step_position s" and ?i = "current_step_index s"
  from assms have p: "0 \<le> ?p" and i: "0 \<le> ?i" by (simp_all add: ring_inv_def)
  have "ring_abs (ring_step ac s)
          = (word_of_int ((?p + dir_sign ac) mod 2 ^ LENGTH(14)),
             word_of_int ((?i + dir_sign ac) mod 2 ^ LENGTH(3)))"
    using p i by (simp add: ring_abs_def)
  also have "\<dots> = (fst (ring_abs s) + of_int (dir_sign ac), snd (ring_abs s) + of_int (dir_sign ac))"
    by (simp only: word_of_int_mod_len) (simp add: ring_abs_def)
  finally show ?thesis
    using ring_abs_coupled [OF ring_step_inv [of s ac, OF assms]] by (rule conjI)
qed

theorem ring_step_refines_counters_witness:
  "ring_inv (globals.make 0 0 90 [])
   \<and> ring_abs (ring_step False (globals.make 0 0 90 [])) = (16383, 7)"
proof -
  have h: "ring_inv (globals.make 0 0 90 [])" by (simp add: ring_inv_def globals.make_def)
  from ring_step_refines_counters [OF h, of False] h show ?thesis
    by (simp add: ring_abs_def globals.make_def dir_sign_def)
qed

end
