(* ===== verification/Servo.thy ===== *)
theory Servo
  imports Prelude
begin

text \<open>
  The arm actuator of \<^verbatim>\<open>main.cpp\<close>: the servo constants (lines 19--24) and
  \<^verbatim>\<open>moveServo\<close> (lines 54--69), which rejects an angle outside \<open>[0, 180]\<close> with a
  console message, otherwise moves the servo one degree at a time (5 ms per degree) and
  then waits the settle delay. The \<^verbatim>\<open>while\<close> loop is a \<open>partial_function (option)\<close>,
  \<open>None\<close> standing for a loop that never ends; the lemmas prove that \<^verbatim>\<open>moveServo\<close>
  always returns, and what it writes.
\<close>

subsection \<open>Definitions\<close>

definition servoPin :: int where "servoPin = 16"
definition servo_middle_angle :: int where "servo_middle_angle = 90"
definition servo_rotation_angle_span :: int where "servo_rotation_angle_span = 60"
definition servo_inside_angle :: int where
  "servo_inside_angle = servo_middle_angle + servo_rotation_angle_span sdiv 2"
definition servo_outside_angle :: int where
  "servo_outside_angle = servo_middle_angle - servo_rotation_angle_span sdiv 2"
definition SERVO_DELAY_MS :: int where "SERVO_DELAY_MS = 500"

definition servo_range_error :: string where
  "servo_range_error = ''Error: angle outside range (0-180deg).''"

text \<open>The loop \<^verbatim>\<open>while (current_servo_angle != targetAngle)\<close> of lines 62--66.\<close>

partial_function (option) servo_sweep :: "int \<Rightarrow> int \<Rightarrow> 'a gstate \<Rightarrow> 'a gstate option" where
  "servo_sweep step_direction targetAngle s =
     (if current_servo_angle s \<noteq> targetAngle
      then (let a = current_servo_angle s + step_direction
            in servo_sweep step_direction targetAngle
                 (s\<lparr>current_servo_angle := a, io_trace := io_trace s @ [ServoWrite a, DelayMs 5]\<rparr>))
      else Some s)"

definition moveServo :: "int \<Rightarrow> 'a gstate \<Rightarrow> 'a gstate option" where
  "moveServo targetAngle s =
     (if targetAngle < 0 \<or> targetAngle > 180
      then Some (s\<lparr>io_trace := io_trace s @ [Println servo_range_error]\<rparr>)
      else do {
        let step_direction = (if targetAngle > current_servo_angle s then 1 else - 1);
        s' \<leftarrow> servo_sweep step_direction targetAngle s;
        Some (s'\<lparr>io_trace := io_trace s' @ [DelayMs SERVO_DELAY_MS]\<rparr>)
      })"

subsection \<open>Specification\<close>

text \<open>The angles a sweep from \<open>a\<close> to \<open>t\<close> writes, one degree apart, and its events.\<close>

definition servo_path :: "int \<Rightarrow> int \<Rightarrow> int list" where
  "servo_path a t = (if a \<le> t then [a + 1..t] else rev [t..a - 1])"

definition sweep_events :: "int list \<Rightarrow> event list" where
  "sweep_events xs = concat (map (\<lambda>x. [ServoWrite x, DelayMs 5]) xs)"

definition angle_ok :: "int \<Rightarrow> bool" where
  "angle_ok a \<longleftrightarrow> 0 \<le> a \<and> a \<le> 180"

subsection \<open>The loop\<close>

lemma servo_consts [simp, motion_consts]:
  "servo_inside_angle = 120" "servo_outside_angle = 60" "SERVO_DELAY_MS = 500"
  by (simp_all add: servo_inside_angle_def servo_outside_angle_def servo_middle_angle_def
      servo_rotation_angle_span_def SERVO_DELAY_MS_def)

lemma sweep_events_Cons [simp]:
  "sweep_events (x # xs) = ServoWrite x # DelayMs 5 # sweep_events xs"
  "sweep_events [] = []"
  by (simp_all add: sweep_events_def)

lemma servo_sweep_up:
  "current_servo_angle s = a \<Longrightarrow> a \<le> t \<Longrightarrow>
   servo_sweep 1 t s = Some (s\<lparr>current_servo_angle := t,
     io_trace := io_trace s @ sweep_events [a + 1..t]\<rparr>)"
proof (induction "nat (t - a)" arbitrary: s a)
  case 0
  then have "t = a" "a = current_servo_angle s" by simp_all
  then show ?case by (subst servo_sweep.simps) simp
next
  case (Suc n)
  let ?s1 = "s\<lparr>current_servo_angle := a + 1, io_trace := io_trace s @ [ServoWrite (a + 1), DelayMs 5]\<rparr>"
  from Suc.hyps(2) Suc.prems have lt: "a < t" by simp
  have "servo_sweep 1 t s = servo_sweep 1 t ?s1"
    using lt Suc.prems(1) by (simp add: servo_sweep.simps [of 1 t s] Let_def)
  also have "\<dots> = Some (?s1\<lparr>current_servo_angle := t,
                  io_trace := io_trace ?s1 @ sweep_events [a + 1 + 1..t]\<rparr>)"
    using Suc.hyps(1) [of "a + 1" ?s1] Suc.hyps(2) lt by simp
  also have "[a + 1 + 1..t] = tl [a + 1..t]"
    using lt upto_rec1 [of "a + 1" t] by simp
  finally show ?case
    using lt upto_rec1 [of "a + 1" t] by simp
qed

lemma servo_sweep_down:
  "current_servo_angle s = a \<Longrightarrow> t \<le> a \<Longrightarrow>
   servo_sweep (- 1) t s = Some (s\<lparr>current_servo_angle := t,
     io_trace := io_trace s @ sweep_events (rev [t..a - 1])\<rparr>)"
proof (induction "nat (a - t)" arbitrary: s a)
  case 0
  then have "t = a" "a = current_servo_angle s" by simp_all
  then show ?case by (subst servo_sweep.simps) simp
next
  case (Suc n)
  let ?s1 = "s\<lparr>current_servo_angle := a - 1, io_trace := io_trace s @ [ServoWrite (a - 1), DelayMs 5]\<rparr>"
  from Suc.hyps(2) Suc.prems have lt: "t < a" by simp
  have "servo_sweep (- 1) t s = servo_sweep (- 1) t ?s1"
    using lt Suc.prems(1) by (simp add: servo_sweep.simps [of "- 1" t s] Let_def)
  also have "\<dots> = Some (?s1\<lparr>current_servo_angle := t,
                  io_trace := io_trace ?s1 @ sweep_events (rev [t..a - 1 - 1])\<rparr>)"
    using Suc.hyps(1) [of "a - 1" ?s1] Suc.hyps(2) lt by simp
  finally show ?case
    using lt upto_rec2 [of t "a - 1"] by simp
qed

lemma moveServo_in_range:
  assumes "angle_ok t"
  shows "moveServo t s = Some (s\<lparr>current_servo_angle := t,
           io_trace := io_trace s @ sweep_events (servo_path (current_servo_angle s) t)
                       @ [DelayMs SERVO_DELAY_MS]\<rparr>)"
proof (cases "t > current_servo_angle s")
  case True
  with assms show ?thesis
    by (simp add: moveServo_def angle_ok_def servo_path_def servo_sweep_up [OF refl])
next
  case False
  with assms show ?thesis
    by (auto simp: moveServo_def angle_ok_def servo_path_def servo_sweep_down [OF refl])
qed

lemma moveServo_out_of_range:
  "\<not> angle_ok t \<Longrightarrow> moveServo t s = Some (s\<lparr>io_trace := io_trace s @ [Println servo_range_error]\<rparr>)"
  by (auto simp: moveServo_def angle_ok_def)

lemma servo_path_length: "length (servo_path a t) = nat \<bar>t - a\<bar>"
  by (simp add: servo_path_def)

lemma servo_path_between: "x \<in> set (servo_path a t) \<Longrightarrow> min a t \<le> x \<and> x \<le> max a t"
  by (auto simp: servo_path_def split: if_splits)

lemma sweep_events_servo_writes:
  "ServoWrite x \<in> set (sweep_events xs) \<longleftrightarrow> x \<in> set xs"
  by (induction xs) auto

lemma sweep_events_motion [simp]: "list_all is_motion_event (sweep_events xs)"
  by (induction xs) auto

lemma moveServo_in_range_motion:
  "angle_ok t \<Longrightarrow> moveServo t s = Some s' \<Longrightarrow>
   current_servo_angle s' = t \<and> current_ring_step_position s' = current_ring_step_position s
   \<and> current_step_index s' = current_step_index s
   \<and> (\<exists>tr. io_trace s' = io_trace s @ tr \<and> list_all is_motion_event tr)"
  by (auto simp: moveServo_in_range)

lemma moveServo_frame:
  assumes "angle_ok (current_servo_angle s)" "moveServo t s = Some s'"
  shows "angle_ok (current_servo_angle s')
         \<and> current_ring_step_position s' = current_ring_step_position s
         \<and> current_step_index s' = current_step_index s"
proof (cases "angle_ok t")
  case True
  with assms(2) show ?thesis by (simp add: moveServo_in_range_motion)
next
  case False
  with assms show ?thesis by (auto simp: moveServo_out_of_range)
qed

subsection \<open>Properties of the arm actuator\<close>

text \<open>C11. Termination: \<^verbatim>\<open>moveServo(angle)\<close> returns for every target and every
  current angle; its \<^verbatim>\<open>while\<close> loop never runs forever.\<close>

theorem moveServo_returns: "\<exists>s'. moveServo t s = Some s'"
  by (cases "angle_ok t") (simp_all add: moveServo_in_range moveServo_out_of_range)

text \<open>C12. Functional behaviour in range: for a target in \<open>[0, 180]\<close> the servo ends
  at the target after exactly \<open>|target - current|\<close> writes, one degree apart, each
  followed by 5 ms, and then the 500 ms settle delay.\<close>

theorem moveServo_sweeps_to_target:
  assumes "angle_ok t"
  shows "\<exists>s'. moveServo t s = Some s'
           \<and> current_servo_angle s' = t
           \<and> io_trace s' = io_trace s @ sweep_events (servo_path (current_servo_angle s) t)
                            @ [DelayMs SERVO_DELAY_MS]
           \<and> length (servo_path (current_servo_angle s) t) = nat \<bar>t - current_servo_angle s\<bar>"
  using moveServo_in_range [OF assms, of s] by (simp add: servo_path_length)

theorem moveServo_sweeps_to_target_witness:
  "angle_ok 120 \<and> moveServo 120 (globals.make 0 0 117 [])
     = Some (globals.make 0 0 120 [ServoWrite 118, DelayMs 5, ServoWrite 119, DelayMs 5,
                                   ServoWrite 120, DelayMs 5, DelayMs 500])"
proof -
  have h: "angle_ok 120" by (simp add: angle_ok_def)
  from moveServo_sweeps_to_target [OF h, of "globals.make 0 0 117 []"] h
    moveServo_in_range [OF h, of "globals.make 0 0 117 []"]
  show ?thesis
    by (simp add: globals.make_def servo_path_def upto.simps)
qed

text \<open>C13. Error path: a target outside \<open>[0, 180]\<close> prints the error line and
  changes nothing else: no servo write, no delay, all three globals unchanged.\<close>

theorem moveServo_rejects_out_of_range:
  assumes "t < 0 \<or> 180 < t"
  shows "moveServo t s = Some (s\<lparr>io_trace := io_trace s @ [Println servo_range_error]\<rparr>)"
  using assms by (auto simp: moveServo_def)

theorem moveServo_rejects_out_of_range_witness:
  "((181::int) < 0 \<or> 180 < (181::int))
   \<and> moveServo 181 (globals.make 7 7 90 [])
       = Some (globals.make 7 7 90 [Println servo_range_error])"
proof -
  have h: "(181::int) < 0 \<or> 180 < (181::int)" by simp
  from moveServo_rejects_out_of_range [OF h, of "globals.make 7 7 90 []"] h show ?thesis
    by (simp add: globals.make_def)
qed

text \<open>C14. Boundary: moving to the angle the servo already holds writes nothing to the
  servo but still waits the settle delay.\<close>

theorem moveServo_same_angle:
  assumes "angle_ok a" "current_servo_angle s = a"
  shows "moveServo a s = Some (s\<lparr>io_trace := io_trace s @ [DelayMs SERVO_DELAY_MS]\<rparr>)"
  using moveServo_in_range [OF assms(1), of s] assms(2) by (simp add: servo_path_def)

theorem moveServo_same_angle_witness:
  "angle_ok 90 \<and> current_servo_angle (globals.make 0 0 90 []) = 90
   \<and> moveServo 90 (globals.make 0 0 90 []) = Some (globals.make 0 0 90 [DelayMs 500])"
proof -
  have h: "angle_ok 90" "current_servo_angle (globals.make 0 0 90 []) = 90"
    by (simp_all add: angle_ok_def globals.make_def)
  from moveServo_same_angle [OF h] h show ?thesis by (simp add: globals.make_def)
qed

text \<open>C15. Bounds: from an angle in \<open>[0, 180]\<close>, whatever the target, every angle
  \<^verbatim>\<open>moveServo\<close> writes to the servo, and the angle it leaves, lie in \<open>[0, 180]\<close>.\<close>

theorem moveServo_writes_in_range:
  assumes "angle_ok (current_servo_angle s)" "moveServo t s = Some s'"
  shows "angle_ok (current_servo_angle s')
         \<and> (\<forall>x. ServoWrite x \<in> set (io_trace s') \<longrightarrow> ServoWrite x \<in> set (io_trace s) \<or> angle_ok x)"
proof (cases "angle_ok t")
  case True
  with assms have s': "s' = s\<lparr>current_servo_angle := t,
           io_trace := io_trace s @ sweep_events (servo_path (current_servo_angle s) t)
                       @ [DelayMs SERVO_DELAY_MS]\<rparr>"
    by (simp add: moveServo_in_range)
  have "x \<in> set (servo_path (current_servo_angle s) t) \<Longrightarrow> angle_ok x" for x
    using servo_path_between [of x] assms(1) True by (fastforce simp: angle_ok_def)
  with True s' show ?thesis by (auto simp: sweep_events_servo_writes)
next
  case False
  with assms show ?thesis by (auto simp: moveServo_out_of_range)
qed

theorem moveServo_writes_in_range_witness:
  "angle_ok (current_servo_angle (globals.make 0 0 178 []))
   \<and> moveServo 180 (globals.make 0 0 178 []) = Some (globals.make 0 0 180
        [ServoWrite 179, DelayMs 5, ServoWrite 180, DelayMs 5, DelayMs 500])
   \<and> angle_ok 180 \<and> angle_ok 179"
proof -
  have h1: "angle_ok (current_servo_angle (globals.make 0 0 178 []))"
    by (simp add: angle_ok_def globals.make_def)
  have h2: "moveServo 180 (globals.make 0 0 178 []) = Some (globals.make 0 0 180
        [ServoWrite 179, DelayMs 5, ServoWrite 180, DelayMs 5, DelayMs 500])"
    using moveServo_in_range [of 180 "globals.make 0 0 178 []"]
    by (simp add: angle_ok_def globals.make_def servo_path_def upto.simps)
  from moveServo_writes_in_range [OF h1 h2] have
    "\<forall>x. ServoWrite x \<in> set [ServoWrite 179, DelayMs 5, ServoWrite 180, DelayMs 5, DelayMs 500]
         \<longrightarrow> angle_ok x" and "angle_ok 180"
    by (simp_all add: globals.make_def)
  with h1 h2 show ?thesis by simp
qed

end
