(* ===== verification/Planner.thy ===== *)
theory Planner
  imports Ring Servo
begin

text \<open>
  The plot planner of \<^verbatim>\<open>main.cpp\<close>: \<^verbatim>\<open>plot_around_nail\<close> (lines 88--93), which
  wraps the thread around one nail (ring to the nail, arm outside, ring to the next nail,
  arm inside), the artwork \<^verbatim>\<open>double_bounce_star_sequence\<close> (lines 30--31) and the
  drawing loop of \<^verbatim>\<open>loop()\<close> (lines 145--150), which plots around every nail of the
  sequence but the first and prints each as progress.
\<close>

subsection \<open>Definitions\<close>

definition plot_around_nail :: "int \<Rightarrow> 'a gstate \<Rightarrow> 'a gstate option" where
  "plot_around_nail nail_idx s = do {
     let s1 = rotate_ring_to_nail nail_idx s;
     s2 \<leftarrow> moveServo servo_outside_angle s1;
     let s3 = rotate_ring_to_nail ((nail_idx + 1) smod num_nails) s2;
     moveServo servo_inside_angle s3
   }"

definition double_bounce_star_sequence :: "int list" where
  "double_bounce_star_sequence = [0, 11, 28, 7, 24, 3, 20, 31, 16, 27, 12, 23, 8, 19, 4, 15, 0]"

definition double_bounce_star_sequence_len :: int where
  "double_bounce_star_sequence_len = 17"

definition progress_text :: string where
  "progress_text = ''    going to next nail - num ''"

text \<open>The loop \<^verbatim>\<open>for (int i=1; i<double_bounce_star_sequence_len; i++)\<close>.\<close>

function drawing_loop :: "int \<Rightarrow> 'a gstate \<Rightarrow> 'a gstate option" where
  "drawing_loop i s =
     (if i < double_bounce_star_sequence_len
      then do {
        let s1 = s\<lparr>io_trace := io_trace s @ [Print progress_text,
                                             PrintlnNum (double_bounce_star_sequence ! nat i)]\<rparr>;
        s2 \<leftarrow> plot_around_nail (double_bounce_star_sequence ! nat i) s1;
        drawing_loop (i + 1) s2
      }
      else Some s)"
  by pat_completeness auto
termination
  by (relation "measure (\<lambda>(i, _). nat (double_bounce_star_sequence_len - i))") auto

declare drawing_loop.simps [simp del]

subsection \<open>Specification\<close>

text \<open>The state the planner works on: a valid ring and an arm angle in range.\<close>

definition plan_inv :: "'a gstate \<Rightarrow> bool" where
  "plan_inv s \<longleftrightarrow> ring_inv s \<and> angle_ok (current_servo_angle s)"

fun is_progress :: "event \<Rightarrow> bool" where
  "is_progress (PrintlnNum _) = True"
| "is_progress _ = False"

subsection \<open>One nail\<close>

lemma sequence_facts [simp]:
  "double_bounce_star_sequence_len = 17" "length double_bounce_star_sequence = 17"
  by (simp_all add: double_bounce_star_sequence_len_def double_bounce_star_sequence_def)

lemma sequence_nails: "list_all nail_ok double_bounce_star_sequence"
  by (simp add: double_bounce_star_sequence_def nail_ok_def)

lemma nail_ok_next: "nail_ok n \<Longrightarrow> nail_ok ((n + 1) smod num_nails)"
  by (simp add: nail_ok_def)

lemma plot_around_nail_result:
  assumes "ring_inv s"
  shows "\<exists>s'. plot_around_nail n s = Some s'
           \<and> current_servo_angle s' = servo_inside_angle
           \<and> (nail_ok n \<longrightarrow> current_ring_step_position s' = ((n + 1) smod num_nails) * steps_per_nail)
           \<and> ring_inv s'
           \<and> (\<exists>tr. io_trace s' = io_trace s @ tr \<and> list_all is_motion_event tr)"
proof -
  let ?s1 = "rotate_ring_to_nail n s"
  have a: "angle_ok 60" "angle_ok 120" by (simp_all add: angle_ok_def)
  obtain s2 where s2: "moveServo 60 ?s1 = Some s2" using moveServo_in_range [OF a(1)] by blast
  let ?n' = "(n + 1) smod 32"
  let ?s3 = "rotate_ring_to_nail ?n' s2"
  obtain s' where s': "moveServo 120 ?s3 = Some s'" using moveServo_in_range [OF a(2)] by blast
  have i1: "ring_inv ?s1" using assms by (rule rotate_ring_to_nail_inv)
  from moveServo_in_range_motion [OF a(1) s2] obtain tr2 where
    m2: "current_ring_step_position s2 = current_ring_step_position ?s1"
        "current_step_index s2 = current_step_index ?s1"
        "io_trace s2 = io_trace ?s1 @ tr2" "list_all is_motion_event tr2" by blast
  have i2: "ring_inv s2" using i1 m2(1,2) by (simp add: ring_inv_def)
  have i3: "ring_inv ?s3" using i2 by (rule rotate_ring_to_nail_inv)
  from moveServo_in_range_motion [OF a(2) s'] obtain tr4 where
    m4: "current_servo_angle s' = 120"
        "current_ring_step_position s' = current_ring_step_position ?s3"
        "current_step_index s' = current_step_index ?s3"
        "io_trace s' = io_trace ?s3 @ tr4" "list_all is_motion_event tr4" by blast
  have i4: "ring_inv s'" using i3 m4(2,3) by (simp add: ring_inv_def)
  obtain tr1 where t1: "io_trace ?s1 = io_trace s @ tr1" "list_all is_motion_event tr1"
    using rotate_ring_to_nail_motion by blast
  obtain tr3 where t3: "io_trace ?s3 = io_trace s2 @ tr3" "list_all is_motion_event tr3"
    using rotate_ring_to_nail_motion by blast
  have pos: "nail_ok n \<Longrightarrow> current_ring_step_position s' = ?n' * 512"
    using m4(2) rotate_ring_to_nail_pos [OF i2 nail_ok_next [of n]] by simp
  have plot: "plot_around_nail n s = Some s'"
    using s2 s' by (simp add: plot_around_nail_def)
  show ?thesis
    using plot m4(1) pos i4 t1 m2(3,4) t3 m4(4,5) by auto
qed

lemma motion_no_progress: "list_all is_motion_event tr \<Longrightarrow> filter is_progress tr = []"
proof (induction tr)
  case Nil
  then show ?case by simp
next
  case (Cons e tr)
  then show ?case by (cases e) auto
qed

subsection \<open>The drawing loop\<close>

lemma drawing_loop_result:
  "ring_inv s \<Longrightarrow> 0 \<le> i \<Longrightarrow>
   \<exists>s'. drawing_loop i s = Some s' \<and> ring_inv s'
     \<and> (\<exists>tr. io_trace s' = io_trace s @ tr
             \<and> filter is_progress tr = map PrintlnNum (drop (nat i) double_bounce_star_sequence))
     \<and> (i < 17 \<longrightarrow> current_ring_step_position s' = 512 \<and> current_servo_angle s' = 120)"
proof (induction i s rule: drawing_loop.induct)
  case (1 i s)
  show ?case
  proof (cases "i < 17")
    case False
    then show ?thesis
      using "1.prems" by (simp add: drawing_loop.simps [of i s])
  next
    case True
    let ?n = "double_bounce_star_sequence ! nat i"
    let ?s1 = "s\<lparr>io_trace := io_trace s @ [Print progress_text, PrintlnNum ?n]\<rparr>"
    have i1: "ring_inv ?s1" using "1.prems"(1) by (simp add: ring_inv_def)
    have n: "nail_ok ?n"
      using sequence_nails True "1.prems"(2) by (simp add: list_all_length)
    from plot_around_nail_result [OF i1, of ?n] n obtain s2 tr2 where
      p2: "plot_around_nail ?n ?s1 = Some s2" "current_servo_angle s2 = 120"
          "current_ring_step_position s2 = ((?n + 1) smod 32) * 512" "ring_inv s2"
          "io_trace s2 = io_trace ?s1 @ tr2" "list_all is_motion_event tr2"
      by auto
    from "1.IH" [OF _ refl p2(1)] True p2(4) "1.prems"(2) obtain s' tr where
      r: "drawing_loop (i + 1) s2 = Some s'" "ring_inv s'"
         "io_trace s' = io_trace s2 @ tr"
         "filter is_progress tr = map PrintlnNum (drop (nat (i + 1)) double_bounce_star_sequence)"
         "i + 1 < 17 \<longrightarrow> current_ring_step_position s' = 512 \<and> current_servo_angle s' = 120"
      by auto
    have run: "drawing_loop i s = Some s'"
      using True p2(1) r(1) by (simp add: drawing_loop.simps [of i s])
    have drop: "drop (nat i) double_bounce_star_sequence
                  = ?n # drop (nat (i + 1)) double_bounce_star_sequence"
      using True "1.prems"(2) Cons_nth_drop_Suc [of "nat i" double_bounce_star_sequence]
      by (simp add: nat_add_distrib)
    have last: "i + 1 = 17 \<Longrightarrow> s' = s2"
      using r(1) by (simp add: drawing_loop.simps [of 17 s2])
    have final: "current_ring_step_position s' = 512 \<and> current_servo_angle s' = 120"
    proof (cases "i + 1 < 17")
      case True
      with r(5) show ?thesis by simp
    next
      case False
      with \<open>i < 17\<close> have "i + 1 = 17" by simp
      moreover have "nat i = 16" using \<open>i + 1 = 17\<close> by simp
      ultimately show ?thesis
        using last p2(2,3) by (simp add: double_bounce_star_sequence_def)
    qed
    show ?thesis
      using run r(2) final p2(5,6) r(3,4) drop
      by (auto simp: motion_no_progress)
  qed
qed

subsection \<open>Properties of the planner\<close>

text \<open>C16. \<^verbatim>\<open>plot_around_nail(n)\<close> for a nail in \<open>[0, 32)\<close> always returns, and
  leaves the ring at the next nail \<open>(n + 1) % 32\<close>, the arm at the inside angle, and the
  ring invariant intact.\<close>

theorem plot_around_nail_ends_at_next_nail:
  assumes "ring_inv s" "nail_ok n"
  shows "\<exists>s'. plot_around_nail n s = Some s'
           \<and> current_ring_step_position s' = ((n + 1) mod num_nails) * steps_per_nail
           \<and> current_servo_angle s' = servo_inside_angle \<and> ring_inv s'"
  using plot_around_nail_result [OF assms(1), of n] assms(2) by (auto simp: nail_ok_def)

theorem plot_around_nail_ends_at_next_nail_witness:
  "ring_inv (globals.make 0 0 90 []) \<and> nail_ok 31
   \<and> (\<exists>s'. plot_around_nail 31 (globals.make 0 0 90 []) = Some s'
         \<and> current_ring_step_position s' = 0 \<and> current_servo_angle s' = 120 \<and> ring_inv s')"
proof -
  have h: "ring_inv (globals.make 0 0 90 [])" "nail_ok 31"
    by (simp_all add: ring_inv_def nail_ok_def globals.make_def)
  from plot_around_nail_ends_at_next_nail [OF h] h show ?thesis by simp
qed

text \<open>C17. The planner never takes the error path of \<^verbatim>\<open>moveServo\<close>: the angles it
  asks for are in range, so everything \<^verbatim>\<open>plot_around_nail\<close> emits is coil writes,
  servo writes and delays, with no console message.\<close>

theorem plot_around_nail_no_console_output:
  assumes "ring_inv s"
  shows "\<exists>s' tr. plot_around_nail n s = Some s' \<and> io_trace s' = io_trace s @ tr
                  \<and> list_all is_motion_event tr"
  using plot_around_nail_result [OF assms, of n] by blast

theorem plot_around_nail_no_console_output_witness:
  "ring_inv (globals.make 512 0 90 [])
   \<and> (\<exists>s' tr. plot_around_nail 5 (globals.make 512 0 90 []) = Some s'
              \<and> io_trace s' = io_trace (globals.make 512 0 90 []) @ tr \<and> list_all is_motion_event tr)"
proof -
  have h: "ring_inv (globals.make 512 0 90 [])" by (simp add: ring_inv_def globals.make_def)
  from plot_around_nail_no_console_output [OF h, of 5] h show ?thesis by blast
qed

text \<open>C18. The whole drawing loop always returns; from any valid state it leaves the arm
  inside and the ring at nail 1, the nail after the sequence's last entry 0 (not at nail
  0).\<close>

theorem drawing_loop_final_position:
  assumes "ring_inv s"
  shows "\<exists>s'. drawing_loop 1 s = Some s'
           \<and> current_ring_step_position s' = 1 * steps_per_nail
           \<and> current_servo_angle s' = servo_inside_angle \<and> ring_inv s'"
  using drawing_loop_result [OF assms, of 1] by auto

theorem drawing_loop_final_position_witness:
  "ring_inv (globals.make (11 * 512) 0 120 [])
   \<and> (\<exists>s'. drawing_loop 1 (globals.make (11 * 512) 0 120 []) = Some s'
         \<and> current_ring_step_position s' = 512 \<and> current_servo_angle s' = 120 \<and> ring_inv s')"
proof -
  have h: "ring_inv (globals.make (11 * 512) 0 120 [])" by (simp add: ring_inv_def globals.make_def)
  from drawing_loop_final_position [OF h] h show ?thesis by simp
qed

text \<open>C19. Progress: the numbers the drawing loop prints are exactly the nails of the
  sequence after the first, in order, one per call of \<^verbatim>\<open>plot_around_nail\<close>.\<close>

theorem drawing_loop_progress:
  assumes "ring_inv s"
  shows "\<exists>s' tr. drawing_loop 1 s = Some s' \<and> io_trace s' = io_trace s @ tr
           \<and> filter is_progress tr = map PrintlnNum (tl double_bounce_star_sequence)"
  using drawing_loop_result [OF assms, of 1] by (auto simp: drop_Suc)

theorem drawing_loop_progress_witness:
  "ring_inv (globals.make 0 0 90 [])
   \<and> (\<exists>s' tr. drawing_loop 1 (globals.make 0 0 90 []) = Some s' \<and> io_trace s' = [] @ tr
        \<and> filter is_progress tr = map PrintlnNum [11, 28, 7, 24, 3, 20, 31, 16, 27, 12, 23, 8, 19, 4, 15, 0])"
proof -
  have h: "ring_inv (globals.make 0 0 90 [])" by (simp add: ring_inv_def globals.make_def)
  from drawing_loop_progress [OF h] h show ?thesis
    by (simp add: globals.make_def double_bounce_star_sequence_def)
qed

end
