(* ===== verification/Session.thy ===== *)
theory Session
  imports Planner
begin

text \<open>
  The session controller of \<^verbatim>\<open>main.cpp\<close>: \<^verbatim>\<open>setup()\<close> (lines 95--129), the
  operator handshake \<^verbatim>\<open>wait_for_user_confirm()\<close> (lines 71--76) and \<^verbatim>\<open>loop()\<close>
  (lines 131--157), as a labelled step relation on a stage and the globals. A step
  labelled \<open>Confirm\<close> is the operator's key press that ends a blocking
  \<^verbatim>\<open>wait_for_user_confirm\<close>; every other step is \<open>Internal\<close>. \<^verbatim>\<open>loop()\<close> never
  returns (it ends in \<^verbatim>\<open>while (true) delay(10000)\<close>), so the Arduino core runs it once
  and the stage \<open>Complete\<close> only idles.
\<close>

subsection \<open>Definitions\<close>

datatype stage =
    Boot | AwaitStart | AwaitRemoval | Calibrating | AwaitSetup
  | Positioning | AwaitAttach | Drawing | Complete

datatype label = Confirm | Internal

type_synonym session = "stage \<times> globals"

text \<open>\<^verbatim>\<open>wait_for_user_confirm\<close>: the prompt before the wait, and what follows it.
  Draining the serial buffer has no effect on the globals.\<close>

definition confirm_prompt :: "'a gstate \<Rightarrow> 'a gstate" where
  "confirm_prompt s = emit [Println ''    Confirm goto next setp: (any key): ''] s"

definition confirm_resume :: "'a gstate \<Rightarrow> 'a gstate" where
  "confirm_resume s = emit [Println ''    Continuing program ...''] s"

definition setup_start :: "'a gstate \<Rightarrow> 'a gstate" where
  "setup_start s = confirm_prompt (emit [SerialBegin 115200, PinMode motorPin1, PinMode motorPin2,
                      PinMode motorPin3, PinMode motorPin4, ServoAttach servoPin] s)"

definition setup_remove_prompt :: "'a gstate \<Rightarrow> 'a gstate" where
  "setup_remove_prompt s = confirm_prompt (emit [Println '''',
      Println ''Please make sure the nail ring or servo arm is removed''] (confirm_resume s))"

definition calibration :: "'a gstate \<Rightarrow> 'a gstate option" where
  "calibration s = do {
     s2 \<leftarrow> moveServo 0 (emit [Println '''', Println ''Servo position max anti-clockwise - 0deg''] s);
     s4 \<leftarrow> moveServo 180 (emit [DelayMs 500, Println ''Servo position max clockwise - 180deg''] s2);
     s6 \<leftarrow> moveServo 90 (emit [DelayMs 500, Println ''Servo position middle - 90deg''] s4);
     Some (confirm_prompt (emit [DelayMs 500, Println '''',
       Println ''Please configure the servo-arm and nail ring to the inital position''] s6))
   }"

definition setup_finish :: "'a gstate \<Rightarrow> 'a gstate" where
  "setup_finish s = emit [DelayMs 1000] (confirm_resume s)"

definition loop_position :: "'a gstate \<Rightarrow> 'a gstate option" where
  "loop_position s = do {
     s1 \<leftarrow> moveServo servo_inside_angle (emit [Print ''''] s);
     let s2 = rotate_ring_to_nail (double_bounce_star_sequence ! 1) s1;
     Some (confirm_prompt (emit [Println ''Please attach the string to the starting nail'',
       Println ''  the nail under the servo arm is number 0'',
       Print ''  '', PrintNum (double_bounce_star_sequence ! 1), Println '' counting clockwise'',
       Print ''  '', PrintNum (num_nails - double_bounce_star_sequence ! 1),
       Println '' counting couter-clockwise''] s2))
   }"

definition loop_start_drawing :: "'a gstate \<Rightarrow> 'a gstate" where
  "loop_start_drawing s = emit [Print '''', Println ''STARTING DRAWING''] (confirm_resume s)"

definition loop_draw :: "'a gstate \<Rightarrow> 'a gstate option" where
  "loop_draw s = map_option (emit [Println ''DRAWING COMPLETE'']) (drawing_loop 1 s)"

definition loop_idle :: "'a gstate \<Rightarrow> 'a gstate" where
  "loop_idle s = emit [DelayMs 10000] s"

definition session_init :: session where
  "session_init = (Boot, \<lparr>current_ring_step_position = 0, current_step_index = 0,
                          current_servo_angle = 90, io_trace = []\<rparr>)"

inductive session_step :: "session \<Rightarrow> label \<Rightarrow> session \<Rightarrow> bool" where
  boot: "session_step (Boot, g) Internal (AwaitStart, setup_start g)"
| confirm_start: "session_step (AwaitStart, g) Confirm (AwaitRemoval, setup_remove_prompt g)"
| confirm_removal: "session_step (AwaitRemoval, g) Confirm (Calibrating, confirm_resume g)"
| calibrate: "calibration g = Some g' \<Longrightarrow> session_step (Calibrating, g) Internal (AwaitSetup, g')"
| confirm_setup: "session_step (AwaitSetup, g) Confirm (Positioning, setup_finish g)"
| position: "loop_position g = Some g' \<Longrightarrow> session_step (Positioning, g) Internal (AwaitAttach, g')"
| confirm_attach: "session_step (AwaitAttach, g) Confirm (Drawing, loop_start_drawing g)"
| draw: "loop_draw g = Some g' \<Longrightarrow> session_step (Drawing, g) Internal (Complete, g')"
| idle: "session_step (Complete, g) Internal (Complete, loop_idle g)"

code_pred session_step .

inductive_cases complete_stepE: "session_step (Complete, g) l t"

text \<open>Runs from a session, with the labels of their steps.\<close>

inductive session_run :: "session \<Rightarrow> label list \<Rightarrow> session \<Rightarrow> bool" where
  run_nil: "session_run s [] s"
| run_snoc: "session_run s ls t \<Longrightarrow> session_step t l u \<Longrightarrow> session_run s (ls @ [l]) u"

subsection \<open>Specification\<close>

text \<open>Number of operator confirmations given before a stage is reached.\<close>

fun confirms_before :: "stage \<Rightarrow> nat" where
  "confirms_before Boot = 0"
| "confirms_before AwaitStart = 0"
| "confirms_before AwaitRemoval = 1"
| "confirms_before Calibrating = 2"
| "confirms_before AwaitSetup = 2"
| "confirms_before Positioning = 3"
| "confirms_before AwaitAttach = 3"
| "confirms_before Drawing = 4"
| "confirms_before Complete = 4"

definition session_inv :: "session \<Rightarrow> bool" where
  "session_inv st \<longleftrightarrow>
     plan_inv (snd st) \<and> current_ring_step_position (snd st) mod steps_per_nail = 0
     \<and> (fst st = Complete \<longrightarrow> current_ring_step_position (snd st) = 512
                            \<and> current_servo_angle (snd st) = servo_inside_angle)"

lemmas session_op_defs = confirm_prompt_def confirm_resume_def setup_start_def
  setup_remove_prompt_def setup_finish_def loop_start_drawing_def loop_idle_def

subsection \<open>The blocks of setup() and loop()\<close>

lemma angles_ok [simp]: "angle_ok 0" "angle_ok 90" "angle_ok 120" "angle_ok 180"
  by (simp_all add: angle_ok_def)

lemma calibration_result:
  "\<exists>g'. calibration g = Some g' \<and> current_servo_angle g' = 90
     \<and> current_ring_step_position g' = current_ring_step_position g
     \<and> current_step_index g' = current_step_index g"
  by (simp add: calibration_def moveServo_in_range session_op_defs)

lemma loop_position_result:
  assumes "ring_inv g"
  shows "\<exists>g'. loop_position g = Some g' \<and> ring_inv g' \<and> current_servo_angle g' = 120
     \<and> current_ring_step_position g' = 11 * 512"
proof -
  let ?g1 = "emit [Print ''''] g"
  obtain g2 where g2: "moveServo 120 ?g1 = Some g2" using moveServo_in_range [of 120 ?g1] by simp
  from moveServo_in_range_motion [OF _ g2] have f: "current_servo_angle g2 = 120"
    "current_ring_step_position g2 = current_ring_step_position g"
    "current_step_index g2 = current_step_index g" by simp_all
  then have i2: "ring_inv g2" using assms by (simp add: ring_inv_def)
  have n: "nail_ok (double_bounce_star_sequence ! 1)"
    by (simp add: double_bounce_star_sequence_def nail_ok_def)
  have "ring_inv (rotate_ring_to_nail (double_bounce_star_sequence ! 1) g2)"
    using i2 by (rule rotate_ring_to_nail_inv)
  with rotate_ring_to_nail_pos [OF i2 n] f g2 show ?thesis
    by (simp add: loop_position_def session_op_defs ring_inv_def double_bounce_star_sequence_def)
qed

lemma loop_draw_result:
  assumes "ring_inv g"
  shows "\<exists>g'. loop_draw g = Some g' \<and> ring_inv g' \<and> current_servo_angle g' = 120
     \<and> current_ring_step_position g' = 512"
proof -
  from drawing_loop_result [OF assms, of 1] obtain g' where
    "drawing_loop 1 g = Some g'" "ring_inv g'" "current_ring_step_position g' = 512"
    "current_servo_angle g' = 120" by auto
  then show ?thesis by (simp add: loop_draw_def ring_inv_def)
qed

subsection \<open>Invariant\<close>

lemma session_init_inv: "session_inv session_init"
  by (simp add: session_inv_def session_init_def plan_inv_def ring_inv_def angle_ok_def)

lemma session_step_inv [motion_inv]:
  assumes "session_step st l st'" "session_inv st"
  shows "session_inv st'"
  using assms
proof (induction rule: session_step.induct)
  case (calibrate g g')
  with calibration_result [of g] show ?case
    by (auto simp: session_inv_def plan_inv_def ring_inv_def)
next
  case (position g g')
  then have "ring_inv g" by (simp add: session_inv_def plan_inv_def)
  from loop_position_result [OF this] position.hyps show ?case
    by (auto simp: session_inv_def plan_inv_def)
next
  case (draw g g')
  then have "ring_inv g" by (simp add: session_inv_def plan_inv_def)
  from loop_draw_result [OF this] draw.hyps show ?case
    by (auto simp: session_inv_def plan_inv_def)
qed (auto simp: session_inv_def plan_inv_def ring_inv_def session_op_defs)

lemma session_run_inv: "session_run s ls t \<Longrightarrow> session_inv s \<Longrightarrow> session_inv t"
  by (induction rule: session_run.induct) (auto intro: session_step_inv)

lemma session_step_confirms:
  "session_step st l st' \<Longrightarrow>
   confirms_before (fst st') = confirms_before (fst st) + (if l = Confirm then 1 else 0)"
  by (induction rule: session_step.induct) auto

lemma session_run_confirms:
  "session_run s ls t \<Longrightarrow> confirms_before (fst t) = confirms_before (fst s) + count_list ls Confirm"
  by (induction rule: session_run.induct) (auto dest: session_step_confirms)

subsection \<open>Properties of the session\<close>

text \<open>C20. Safety: in every state reachable from power-on, the ring position is in
  \<open>[0, 16384)\<close> and a multiple of \<open>steps_per_nail\<close> (the ring rests only at nails),
  the coil phase is the position modulo 8, the arm angle is in \<open>[0, 180]\<close>, and once the
  drawing is complete the ring is at nail 1 and the arm inside.\<close>

theorem session_reachable_safe:
  assumes "session_run session_init ls st"
  shows "0 \<le> current_ring_step_position (snd st)
         \<and> current_ring_step_position (snd st) < stepper_steps_per_ring_rotation
         \<and> current_ring_step_position (snd st) mod steps_per_nail = 0
         \<and> current_step_index (snd st) = current_ring_step_position (snd st) mod 8
         \<and> 0 \<le> current_servo_angle (snd st) \<and> current_servo_angle (snd st) \<le> 180
         \<and> (fst st = Complete \<longrightarrow> current_ring_step_position (snd st) = 1 * steps_per_nail
                                \<and> current_servo_angle (snd st) = servo_inside_angle)"
  using session_run_inv [OF assms session_init_inv]
  by (simp add: session_inv_def plan_inv_def ring_inv_def angle_ok_def)

theorem session_reachable_safe_witness:
  "session_run session_init [] session_init
   \<and> current_ring_step_position (snd session_init) mod steps_per_nail = 0
   \<and> current_servo_angle (snd session_init) \<le> 180"
proof -
  have h: "session_run session_init [] session_init" by (rule session_run.run_nil)
  from session_reachable_safe [OF h] h show ?thesis by simp
qed

text \<open>C21. \<open>Complete\<close> is terminal: from it no confirmation is accepted, the only step
  stays in \<open>Complete\<close>, and it moves neither the ring, the coils nor the arm.\<close>

theorem session_complete_terminal:
  assumes "session_step (Complete, g) l st'"
  shows "l = Internal \<and> fst st' = Complete
         \<and> current_ring_step_position (snd st') = current_ring_step_position g
         \<and> current_step_index (snd st') = current_step_index g
         \<and> current_servo_angle (snd st') = current_servo_angle g"
  using assms by (auto elim: complete_stepE simp: loop_idle_def)

theorem session_complete_terminal_witness:
  "session_step (Complete, snd session_init) Internal (Complete, loop_idle (snd session_init))
   \<and> fst (Complete, loop_idle (snd session_init)) = Complete"
proof -
  have h: "session_step (Complete, snd session_init) Internal (Complete, loop_idle (snd session_init))"
    by (rule session_step.idle)
  from session_complete_terminal [OF h] h show ?thesis by simp
qed

text \<open>C22. No deadlock: every reachable state has a next step (a waiting state on a
  confirmation, every other state by itself), so the servo loops and the drawing always
  return.\<close>

theorem session_no_deadlock:
  assumes "session_run session_init ls st"
  shows "\<exists>l st'. session_step st l st'"
proof -
  obtain stg g where st: "st = (stg, g)" by (cases st)
  from session_run_inv [OF assms session_init_inv] st have r: "ring_inv g"
    by (simp add: session_inv_def plan_inv_def)
  show ?thesis
  proof (cases stg)
    case Calibrating
    with st calibration_result [of g] show ?thesis by (auto intro: session_step.calibrate)
  next
    case Positioning
    with st loop_position_result [OF r] show ?thesis by (auto intro: session_step.position)
  next
    case Drawing
    with st loop_draw_result [OF r] show ?thesis by (auto intro: session_step.draw)
  qed (use st session_step.intros in blast)+
qed

theorem session_no_deadlock_witness:
  "session_run session_init [] session_init \<and> (\<exists>l st'. session_step session_init l st')"
proof -
  have h: "session_run session_init [] session_init" by (rule session_run.run_nil)
  from session_no_deadlock [OF h] h show ?thesis by blast
qed

text \<open>C23. The drawing starts only after exactly four operator confirmations: in every
  run from power-on, the number of confirmations is fixed by the stage reached.\<close>

theorem session_confirm_count:
  assumes "session_run session_init ls st"
  shows "count_list ls Confirm = confirms_before (fst st)"
  using session_run_confirms [OF assms] by (simp add: session_init_def)

theorem session_confirm_count_witness:
  "session_run session_init [Internal] (AwaitStart, setup_start (snd session_init))
   \<and> count_list [Internal] Confirm = confirms_before AwaitStart"
proof -
  have h: "session_run session_init [Internal] (AwaitStart, setup_start (snd session_init))"
    using session_run.run_snoc [OF session_run.run_nil, of session_init Internal]
      session_step.boot [of "snd session_init"]
    by (simp add: session_init_def)
  from session_confirm_count [OF h] h show ?thesis by simp
qed

end
