(* ===== verification/Spec2Isabelle.thy ===== *)
theory Spec2Isabelle
  imports Session
begin

text \<open>
  \<^bold>\<open>Verification of the string-art plotter sketch \<^verbatim>\<open>src/src/main.cpp\<close>.\<close>

  \<^bold>\<open>The program.\<close> One Arduino sketch drives a stepper-turned nail ring and a
  servo arm. Its parts, leaf first: the \<^emph>\<open>coil sequencer\<close> (the half-step table
  \<^verbatim>\<open>lookup\<close> and the pin writes of each step); the \<^emph>\<open>ring position tracker\<close>
  (\<^verbatim>\<open>rotate_ring\<close>, \<^verbatim>\<open>rotate_ring_to_nail\<close>: the step count modulo one revolution
  and the shortest signed delta to a nail); the \<^emph>\<open>arm actuator\<close> (\<^verbatim>\<open>moveServo\<close>);
  the \<^emph>\<open>plot planner\<close> (\<^verbatim>\<open>plot_around_nail\<close> and the drawing loop over
  \<^verbatim>\<open>double_bounce_star_sequence\<close>); and the \<^emph>\<open>session controller\<close>
  (\<^verbatim>\<open>setup()\<close>, \<^verbatim>\<open>wait_for_user_confirm()\<close>, \<^verbatim>\<open>loop()\<close>). Control flows
  controller \<open>\<rightarrow>\<close> planner \<open>\<rightarrow>\<close> {ring \<open>\<rightarrow>\<close> coils, arm}; the only shared state is
  the three global \<^verbatim>\<open>int\<close>s \<^verbatim>\<open>current_ring_step_position\<close>,
  \<^verbatim>\<open>current_step_index\<close> and \<^verbatim>\<open>current_servo_angle\<close>.

  \<^bold>\<open>The model.\<close> Shallow embedding with explicit state passing.
  \<^item> \<open>Prelude\<close>: the record \<open>globals\<close> holds the three globals and \<open>io_trace\<close>, the
    list of Arduino calls made so far (\<open>event\<close>: pin writes, servo writes, delays, serial
    output), so each operation maps a record to the next and the order of hardware
    effects is part of the result. C \<^verbatim>\<open>/\<close>, \<^verbatim>\<open>%\<close> are \<open>sdiv\<close>, \<open>smod\<close>.
  \<^item> \<open>Coil\<close>: \<open>lookup\<close>, \<open>coil_outputs\<close>, \<open>next_step_index\<close>, \<open>coil_step\<close>
    (lines 34--47); the spec \<open>coil_schedule\<close> of the rows a run of steps writes.
  \<^item> \<open>Ring\<close>: the constants, \<open>ring_step\<close> (one loop iteration, lines 41--51),
    \<open>rotate_ring_loop\<close> (the counted \<^verbatim>\<open>for\<close> loop, a \<^theory_text>\<open>function\<close> with the
    measure \<open>steps - i\<close>), \<open>rotate_ring\<close>, \<open>ring_delta\<close> (lines 79--83) and
    \<open>rotate_ring_to_nail\<close>. Invariant \<open>ring_inv\<close>: position in \<open>[0, 16384)\<close>, phase =
    position mod 8. Abstraction \<open>ring_abs\<close> to a 14-bit and a 3-bit word counter.
  \<^item> \<open>Servo\<close>: the servo constants, \<open>servo_sweep\<close> (the \<^verbatim>\<open>while\<close> loop, a
    \<open>partial_function (option)\<close>, \<open>None\<close> = runs forever) and \<open>moveServo\<close> with its
    range check as an explicit branch; the spec \<open>servo_path\<close> of the angles written.
  \<^item> \<open>Planner\<close>: \<open>plot_around_nail\<close> and \<open>drawing_loop\<close> (a \<^theory_text>\<open>function\<close> with
    measure \<open>17 - i\<close>), composed in the option monad.
  \<^item> \<open>Session\<close>: one definition per block of \<^verbatim>\<open>setup()\<close>/\<^verbatim>\<open>loop()\<close> between two
    operator waits, and the inductive \<open>session_step\<close> on \<open>stage \<times> globals\<close> with labels
    \<open>Confirm\<close> (the key press ending \<^verbatim>\<open>wait_for_user_confirm\<close>) and \<open>Internal\<close>;
    \<open>session_run\<close> collects runs with their labels. \<^verbatim>\<open>loop()\<close> never returns, so the
    Arduino core runs it once and \<open>Complete\<close> idles.

  \<^bold>\<open>What is proved\<close> (claims C1--C24, each after a text naming it).
  Ring: \<^verbatim>\<open>rotate_ring_to_nail\<close> reaches the nail with phase 0 (C1), by the shortest
  arc, at most half a revolution (C2), is idempotent (C3), goes 512 steps backward from 0
  to nail 31 (C4), and at exactly half a revolution turns in the direction of the raw
  delta's sign (C5); the loop runs \<open>max(steps, 0)\<close> times (C6), writes the table rows
  in cyclic order (C7), keeps phase and position coupled (C8) and refines word counters
  (C9). Coil: every step changes exactly one coil (C10). Servo: \<^verbatim>\<open>moveServo\<close>
  always returns (C11), sweeps one degree at a time and settles (C12), rejects bad angles
  without any other effect (C13), only settles on the current angle (C14), never writes
  outside \<open>[0, 180]\<close> (C15). Planner: \<^verbatim>\<open>plot_around_nail\<close> ends at the next nail
  with the arm inside (C16) and never reaches the servo error path (C17); the drawing
  ends at nail 1 (C18) and prints the sequence as progress (C19). Session: reachable
  states are safe (C20), \<open>Complete\<close> is terminal (C21), no reachable state is stuck
  (C22), four confirmations precede drawing (C23), and a complete run exists (C24,
  below).

  \<^bold>\<open>Bounds and termination.\<close> No fuel is used: \<open>rotate_ring_loop\<close> and
  \<open>drawing_loop\<close> terminate by their measures, and the servo loop, modelled in
  \<open>option\<close>, is proved to return \<open>Some\<close> for every input (C11), so no theorem is only
  a partial-correctness statement.

  \<^bold>\<open>Not modelled.\<close> The Arduino core, the Servo library and the serial port are
  only called: their calls are events, not their hardware effect. \<^verbatim>\<open>while(!Serial)\<close>
  and the draining of the input buffer in \<^verbatim>\<open>wait_for_user_confirm\<close> have no effect on
  the globals and are abstracted. Reading \<^verbatim>\<open>lookup\<close> out of range is undefined
  behaviour in C; the model reads it with \<open>!\<close>, and C8/C20 prove the index is always
  in \<open>[0, 8)\<close>. Timing is recorded as delay events, not as elapsed time.
\<close>

subsection \<open>A complete session\<close>

text \<open>C24. End to end: from power-on, a run with exactly four operator confirmations
  (start, ring removed, setup done, string attached) reaches \<open>Complete\<close>, with the ring
  at nail 1 and the arm at the inside angle, after the servo test, the positioning at
  nail 11 and the sixteen \<^verbatim>\<open>plot_around_nail\<close> calls.\<close>

theorem session_end_to_end:
  "\<exists>ls st. session_run session_init ls st \<and> fst st = Complete
     \<and> count_list ls Confirm = 4
     \<and> current_ring_step_position (snd st) = 1 * steps_per_nail
     \<and> current_servo_angle (snd st) = servo_inside_angle"
proof -
  define g0 where "g0 = snd session_init"
  have r0: "session_run session_init [] (Boot, g0)"
    by (simp add: g0_def session_init_def session_run.run_nil)
  have r1: "session_run session_init [Internal] (AwaitStart, setup_start g0)"
    using session_run.run_snoc [OF r0 session_step.boot] by simp
  define g2 where "g2 = setup_remove_prompt (setup_start g0)"
  have r2: "session_run session_init [Internal, Confirm] (AwaitRemoval, g2)"
    using session_run.run_snoc [OF r1 session_step.confirm_start] by (simp add: g2_def)
  have r3: "session_run session_init [Internal, Confirm, Confirm] (Calibrating, confirm_resume g2)"
    using session_run.run_snoc [OF r2 session_step.confirm_removal] by simp
  obtain g4 where c: "calibration (confirm_resume g2) = Some g4"
    and c4: "current_ring_step_position g4 = 0" "current_step_index g4 = 0"
    using calibration_result [of "confirm_resume g2"]
    by (auto simp: g2_def g0_def session_init_def session_op_defs)
  have r4: "session_run session_init [Internal, Confirm, Confirm, Internal] (AwaitSetup, g4)"
    using session_run.run_snoc [OF r3 session_step.calibrate [OF c]] by simp
  define g5 where "g5 = setup_finish g4"
  have r5: "session_run session_init [Internal, Confirm, Confirm, Internal, Confirm] (Positioning, g5)"
    using session_run.run_snoc [OF r4 session_step.confirm_setup] by (simp add: g5_def)
  have i5: "ring_inv g5" using c4 by (simp add: g5_def session_op_defs ring_inv_def)
  obtain g6 where p: "loop_position g5 = Some g6" and i6: "ring_inv g6"
    using loop_position_result [OF i5] by blast
  have r6: "session_run session_init [Internal, Confirm, Confirm, Internal, Confirm, Internal]
              (AwaitAttach, g6)"
    using session_run.run_snoc [OF r5 session_step.position [OF p]] by simp
  define g7 where "g7 = loop_start_drawing g6"
  have r7: "session_run session_init
              [Internal, Confirm, Confirm, Internal, Confirm, Internal, Confirm] (Drawing, g7)"
    using session_run.run_snoc [OF r6 session_step.confirm_attach] by (simp add: g7_def)
  have i7: "ring_inv g7" using i6 by (simp add: g7_def session_op_defs ring_inv_def)
  obtain g8 where d: "loop_draw g7 = Some g8"
    and f8: "current_servo_angle g8 = 120" "current_ring_step_position g8 = 512"
    using loop_draw_result [OF i7] by blast
  have r8: "session_run session_init
              [Internal, Confirm, Confirm, Internal, Confirm, Internal, Confirm, Internal] (Complete, g8)"
    using session_run.run_snoc [OF r7 session_step.draw [OF d]] by simp
  show ?thesis
    using r8 f8 by fastforce
qed

end
